theory Spec2Isabelle
  imports Complex_Main
begin

section \<open>Python numbers\<close>

text \<open>
  The inference driver \<^verbatim>\<open>infer_flashvsr_v1.1_full_modified.py\<close> computes with Python
  integers (unbounded, modelled as \<open>int\<close>) and Python floats (IEEE 754 binary64). A finite
  float is modelled by the rational number it denotes; every float operation of the source
  is the exact operation followed by \<open>fl\<close>, rounding to the nearest binary64 value, ties to
  even. Negative zero, infinities and NaN are not values of the model: an operation whose
  result leaves the binary64 range is an \<open>OverflowError\<close>, which is what the source raises
  in the places where it happens (see \<open>true_div\<close> and \<open>mul_round\<close>).
\<close>

datatype error =
    InvalidOriginalSize    \<comment> \<open>\<^verbatim>\<open>ValueError("invalid original size")\<close>, line 73\<close>
  | OverflowError          \<comment> \<open>raised by int/int, int-to-float conversion and \<^verbatim>\<open>round(inf)\<close>\<close>
  | ZeroDivisionError      \<comment> \<open>\<^verbatim>\<open>//\<close> by zero\<close>
  | NanRoundError          \<comment> \<open>\<^verbatim>\<open>ValueError\<close> of \<^verbatim>\<open>round(nan)\<close>\<close>
  | PILValueError          \<comment> \<open>\<^verbatim>\<open>ValueError\<close> raised by \<^verbatim>\<open>Image.resize\<close> or \<^verbatim>\<open>Image.crop\<close>\<close>
  | IndexError             \<comment> \<open>reading a frame that the reader does not have\<close>
  | NoImages               \<comment> \<open>\<^verbatim>\<open>FileNotFoundError("No images in ...")\<close>, line 105\<close>
  | CannotReadFrames       \<comment> \<open>\<^verbatim>\<open>RuntimeError("Cannot read frames from ...")\<close>, line 166\<close>
  | NotEnoughFrames        \<comment> \<open>\<^verbatim>\<open>RuntimeError("Not enough frames after padding ...")\<close>, lines 120 and 180\<close>
  | StackError             \<comment> \<open>\<^verbatim>\<open>RuntimeError\<close> of \<^verbatim>\<open>torch.stack\<close> on tensors of different shapes\<close>
  | UnsupportedInput       \<comment> \<open>\<^verbatim>\<open>ValueError("Unsupported input: ...")\<close>, line 199\<close>

datatype pynum = PyInt int | PyFloat rat

fun num_val :: "pynum \<Rightarrow> rat" where
  "num_val (PyInt i) = of_int i"
| "num_val (PyFloat r) = r"

text \<open>Python's \<^verbatim>\<open>round(x)\<close> on a float: the nearest integer, ties to the even one.\<close>

definition py_round :: "rat \<Rightarrow> int" where
  "py_round x =
     (let f = \<lfloor>x\<rfloor>; d = x - of_int f
      in if d < 1 / 2 then f
         else if 1 / 2 < d then f + 1
         else if even f then f else f + 1)"

text \<open>\<open>\<lfloor>log\<^sub>2 q\<rfloor>\<close> for a positive rational, by repeated halving or doubling.\<close>

function log2_ge1 :: "rat \<Rightarrow> int" where
  "log2_ge1 q = (if q < 2 then 0 else 1 + log2_ge1 (q / 2))"
  by pat_completeness auto
termination
proof (relation "measure (\<lambda>q. nat \<lfloor>q\<rfloor>)")
  show "wf (measure (\<lambda>q::rat. nat \<lfloor>q\<rfloor>))" by simp
next
  fix q :: rat
  assume "\<not> q < 2"
  then have "\<lfloor>q / 2\<rfloor> < \<lfloor>q\<rfloor>" and "0 < \<lfloor>q\<rfloor>"
    by (simp_all add: floor_less_iff less_floor_iff) linarith+
  then show "(q / 2, q) \<in> measure (\<lambda>q. nat \<lfloor>q\<rfloor>)"
    by simp
qed

function log2_lt1 :: "rat \<Rightarrow> int" where
  "log2_lt1 q = (if q \<le> 0 \<or> 1 \<le> q then 0 else log2_lt1 (2 * q) - 1)"
  by pat_completeness auto
termination
proof (relation "measure (\<lambda>q. nat \<lfloor>1 / q\<rfloor>)")
  show "wf (measure (\<lambda>q::rat. nat \<lfloor>1 / q\<rfloor>))" by simp
next
  fix q :: rat
  assume "\<not> (q \<le> 0 \<or> 1 \<le> q)"
  then have q: "0 < q" "q < 1" by simp_all
  define x where "x = 1 / q"
  have x: "1 < x" using q by (simp add: x_def)
  have half: "1 / (2 * q) = x / 2" by (simp add: x_def)
  have "of_int \<lfloor>x / 2\<rfloor> \<le> x / 2" by (rule of_int_floor_le)
  moreover have "x < of_int \<lfloor>x\<rfloor> + 1" using floor_correct [of x] by simp
  ultimately have "(of_int (2 * \<lfloor>x / 2\<rfloor>) :: rat) < of_int (\<lfloor>x\<rfloor> + 1)" by simp
  then have le: "2 * \<lfloor>x / 2\<rfloor> < \<lfloor>x\<rfloor> + 1" by (simp only: of_int_less_iff)
  have pos: "1 \<le> \<lfloor>x\<rfloor>" using x by (simp add: le_floor_iff)
  from le pos have "\<lfloor>x / 2\<rfloor> < \<lfloor>x\<rfloor>" by linarith
  with pos show "(2 * q, q) \<in> measure (\<lambda>q. nat \<lfloor>1 / q\<rfloor>)"
    by (simp add: half x_def [symmetric])
qed

declare log2_ge1.simps [simp del] log2_lt1.simps [simp del]

definition floor_log2 :: "rat \<Rightarrow> int" where
  "floor_log2 q = (if 1 \<le> q then log2_ge1 q else log2_lt1 q)"

definition pow2 :: "int \<Rightarrow> rat" where
  "pow2 e = (if 0 \<le> e then 2 ^ nat e else 1 / 2 ^ nat (- e))"

text \<open>
  Rounding to binary64: 53 significant bits, the exponent of the last place never below
  \<open>-1074\<close> (subnormal numbers), ties to even. The exponent is not bounded above here; a
  result of magnitude \<open>2 ^ 1024\<close> or more is what binary64 cannot hold.
\<close>

definition fl :: "rat \<Rightarrow> rat" where
  "fl q =
     (if q = 0 then 0
      else let e = max (floor_log2 \<bar>q\<bar>) (- 1022) - 52
           in of_int (py_round (q / pow2 e)) * pow2 e)"

definition finite_float :: "rat \<Rightarrow> bool" where
  "finite_float r \<longleftrightarrow> \<bar>r\<bar> < 2 ^ 1024"

text \<open>\<^verbatim>\<open>a / b\<close> on two ints with \<open>b \<noteq> 0\<close>: correctly rounded, \<open>OverflowError\<close> when too large.\<close>

definition true_div :: "int \<Rightarrow> int \<Rightarrow> error + rat" where
  "true_div a b =
     (let r = fl (of_int a / of_int b)
      in if finite_float r then Inr r else Inl OverflowError)"

text \<open>
  \<^verbatim>\<open>int(round(w * s))\<close> for an int \<open>w\<close>. When \<open>s\<close> is an int the product is an int and
  \<^verbatim>\<open>round\<close> and \<^verbatim>\<open>int\<close> leave it alone. When \<open>s\<close> is a float, \<open>w\<close> is converted to a
  float first (\<open>OverflowError\<close> when too large), the product is rounded to a float, and a
  product that overflows is \<^verbatim>\<open>inf\<close>, on which \<^verbatim>\<open>round\<close> raises \<open>OverflowError\<close>.
\<close>

fun mul_round :: "int \<Rightarrow> pynum \<Rightarrow> error + int" where
  "mul_round w (PyInt k) = Inr (w * k)"
| "mul_round w (PyFloat s) =
     (let w_f = fl (of_int w)
      in if \<not> finite_float w_f then Inl OverflowError
         else let p = fl (w_f * s)
              in if finite_float p then Inr (py_round p) else Inl OverflowError)"

text \<open>
  \<^verbatim>\<open>min(a, b, c)\<close> keeps the first of the smallest arguments and \<^verbatim>\<open>max(a, b)\<close> the first
  of the largest; an int and a float are compared by value.
\<close>

definition py_min2 :: "pynum \<Rightarrow> pynum \<Rightarrow> pynum" where
  "py_min2 a b = (if num_val b < num_val a then b else a)"

definition py_max2 :: "pynum \<Rightarrow> pynum \<Rightarrow> pynum" where
  "py_max2 a b = (if num_val a < num_val b then b else a)"

definition py_min3 :: "pynum \<Rightarrow> pynum \<Rightarrow> pynum \<Rightarrow> pynum" where
  "py_min3 a b c = py_min2 (py_min2 a b) c"

section \<open>The dimension planner\<close>

text \<open>
  \<^verbatim>\<open>compute_scaled_and_target_dims(w0, h0, scale, max_w, max_h, multiple)\<close>, lines 64 to 92.
  The result is the tuple \<open>(sW, sH, tW, tH, scale_eff)\<close> of the source.
\<close>

type_synonym scale_plan = "int \<times> int \<times> int \<times> int \<times> pynum"

definition target_dims :: "int \<Rightarrow> int \<Rightarrow> int \<Rightarrow> int \<Rightarrow> int \<Rightarrow> int \<times> int" where
  \<comment> \<open>lines 81 to 90, for \<open>multiple \<noteq> 0\<close>\<close>
  "target_dims sW sH max_w max_h multiple =
     (let floor_w = max multiple ((sW div multiple) * multiple);
          floor_h = max multiple ((sH div multiple) * multiple);
          ceil_w = max multiple (((sW + multiple - 1) div multiple) * multiple);
          ceil_h = max multiple (((sH + multiple - 1) div multiple) * multiple);
          can_round_up = (ceil_w \<le> max_w \<and> ceil_h \<le> max_h)
      in if can_round_up then (ceil_w, ceil_h)
         else (min floor_w max_w, min floor_h max_h))"

definition compute_scaled_and_target_dims ::
  "int \<Rightarrow> int \<Rightarrow> pynum \<Rightarrow> int \<Rightarrow> int \<Rightarrow> int \<Rightarrow> error + scale_plan" where
  "compute_scaled_and_target_dims w0 h0 scale max_w max_h multiple =
     (if w0 \<le> 0 \<or> h0 \<le> 0 then Inl InvalidOriginalSize
      else case true_div max_w w0 of Inl e \<Rightarrow> Inl e | Inr rw \<Rightarrow>
           case true_div max_h h0 of Inl e \<Rightarrow> Inl e | Inr rh \<Rightarrow>
           let scale_eff = py_min3 scale (PyFloat rw) (PyFloat rh);
               scale_eff = py_max2 (PyFloat 1) scale_eff
           in case mul_round w0 scale_eff of Inl e \<Rightarrow> Inl e | Inr sW \<Rightarrow>
              case mul_round h0 scale_eff of Inl e \<Rightarrow> Inl e | Inr sH \<Rightarrow>
              if multiple = 0 then Inl ZeroDivisionError
              else let (tW, tH) = target_dims sW sH max_w max_h multiple
                   in Inr (sW, sH, tW, tH, scale_eff))"

fun plan_sW :: "scale_plan \<Rightarrow> int" where "plan_sW (sW, sH, tW, tH, s) = sW"
fun plan_sH :: "scale_plan \<Rightarrow> int" where "plan_sH (sW, sH, tW, tH, s) = sH"
fun plan_tW :: "scale_plan \<Rightarrow> int" where "plan_tW (sW, sH, tW, tH, s) = tW"
fun plan_tH :: "scale_plan \<Rightarrow> int" where "plan_tH (sW, sH, tW, tH, s) = tH"
fun plan_scale :: "scale_plan \<Rightarrow> pynum" where "plan_scale (sW, sH, tW, tH, s) = s"

section \<open>Frames\<close>

text \<open>
  A PIL image is modelled by its size. \<^verbatim>\<open>Image.resize\<close> returns an image of the requested
  size and rejects a size below 1; \<^verbatim>\<open>Image.crop\<close> returns the region of the box, of size
  \<open>(right - left, lower - upper)\<close>, also where the box reaches outside the image, and
  rejects a box whose right or lower edge is before its left or upper edge.
\<close>

record image =
  img_w :: int
  img_h :: int

definition resize :: "image \<Rightarrow> int \<Rightarrow> int \<Rightarrow> error + image" where
  "resize img w h =
     (if w < 1 \<or> h < 1 then Inl PILValueError else Inr \<lparr>img_w = w, img_h = h\<rparr>)"

definition crop :: "image \<Rightarrow> int \<Rightarrow> int \<Rightarrow> int \<Rightarrow> int \<Rightarrow> error + image" where
  "crop img left upper right lower =
     (if right < left \<or> lower < upper then Inl PILValueError
      else Inr \<lparr>img_w = right - left, img_h = lower - upper\<rparr>)"

definition upscale_then_center_crop ::
  "image \<Rightarrow> int \<Rightarrow> int \<Rightarrow> int \<Rightarrow> int \<Rightarrow> error + image" where
  \<comment> \<open>lines 94 to 99\<close>
  "upscale_then_center_crop img sW sH tW tH =
     (case resize img sW sH of Inl e \<Rightarrow> Inl e | Inr up \<Rightarrow>
      let l = max 0 ((sW - tW) div 2); t = max 0 ((sH - tH) div 2)
      in crop up l t (l + tW) (t + tH))"

text \<open>
  A tensor is modelled by its shape. \<^verbatim>\<open>pil_to_tensor_neg1_1\<close> (lines 52 to 55) turns an
  RGB image, an array of shape \<open>(H, W, 3)\<close>, into a tensor of shape \<open>(3, H, W)\<close>.
\<close>

type_synonym frame_shape = "int \<times> int \<times> int"
type_synonym video_shape = "int \<times> int \<times> int \<times> int \<times> int"

definition pil_to_tensor_neg1_1 :: "image \<Rightarrow> frame_shape" where
  "pil_to_tensor_neg1_1 img = (3, img_h img, img_w img)"

definition transform_frame :: "image \<Rightarrow> int \<Rightarrow> int \<Rightarrow> int \<Rightarrow> int \<Rightarrow> error + frame_shape" where
  \<comment> \<open>the body of the frame loops, lines 126 to 128 and 187 to 189\<close>
  "transform_frame img sW sH tW tH =
     (case upscale_then_center_crop img sW sH tW tH of
        Inl e \<Rightarrow> Inl e
      | Inr img_out \<Rightarrow> Inr (pil_to_tensor_neg1_1 img_out))"

fun for_frames :: "('a \<Rightarrow> error + 'b) \<Rightarrow> 'a list \<Rightarrow> error + 'b list" where
  "for_frames f [] = Inr []"
| "for_frames f (x # xs) =
     (case f x of Inl e \<Rightarrow> Inl e | Inr y \<Rightarrow>
      case for_frames f xs of Inl e \<Rightarrow> Inl e | Inr ys \<Rightarrow> Inr (y # ys))"

text \<open>
  \<^verbatim>\<open>torch.stack(frames, 0).permute(1,0,2,3).unsqueeze(0)\<close>: the frames must be at least
  one and of one shape \<open>(C, H, W)\<close>; the result has shape \<open>(1, C, F, H, W)\<close>.
\<close>

definition stack_frames :: "frame_shape list \<Rightarrow> error + video_shape" where
  "stack_frames fs =
     (case fs of
        [] \<Rightarrow> Inl StackError
      | f # rest \<Rightarrow>
          if list_all (\<lambda>g. g = f) rest
          then (case f of (c, h, w) \<Rightarrow> Inr (1, c, int (length fs), h, w))
          else Inl StackError)"

section \<open>Temporal padding\<close>

definition largest_8n1_leq :: "int \<Rightarrow> int" where
  \<comment> \<open>lines 30 and 31\<close>
  "largest_8n1_leq n = (if n < 1 then 0 else ((n - 1) div 8) * 8 + 1)"

text \<open>
  Lines 117 to 121, the directory branch: \<^verbatim>\<open>paths0[-1]\<close> raises on an empty list.
\<close>

definition pad_paths :: "'a list \<Rightarrow> error + 'a list \<times> int" where
  "pad_paths paths0 =
     (if paths0 = [] then Inl IndexError
      else let paths = paths0 @ replicate 4 (last paths0);
               F = largest_8n1_leq (int (length paths))
           in if F = 0 then Inl NotEnoughFrames
              else Inr (take (nat F) paths, F))"

text \<open>Lines 176 to 181, the video branch; \<^verbatim>\<open>range(total)\<close> is empty for a total of 0 or less.\<close>

definition pad_indices :: "int \<Rightarrow> error + int list \<times> int" where
  "pad_indices total_n =
     (let idx = [0..total_n - 1] @ replicate 4 (total_n - 1);
          F = largest_8n1_leq (int (length idx))
      in if F = 0 then Inl NotEnoughFrames
         else Inr (take (nat F) idx, F))"

section \<open>Sources\<close>

text \<open>
  A directory source is the list that \<^verbatim>\<open>list_images_natural\<close> returns, each path with the
  image that \<^verbatim>\<open>Image.open\<close> reads from it. A video source is an imageio reader: the frames
  that \<^verbatim>\<open>get_data\<close> can decode, the metadata dictionary (\<open>None\<close> when
  \<^verbatim>\<open>get_meta_data\<close> raises), and the answer of \<^verbatim>\<open>count_frames\<close> (\<open>None\<close> when it
  raises). A metadata value is an int (a bool is an int in Python), a finite float, an
  infinite float, NaN, or an object of any other type.
\<close>

type_synonym image_file = "string \<times> image"

datatype meta_value = MInt int | MFloat rat | MInf | MNaN | MOther

record video_reader =
  rd_frames :: "image list"
  rd_meta :: "(string \<rightharpoonup> meta_value) option"
  rd_count :: "int option"

datatype source = ImageDir "image_file list" | VideoFile video_reader | OtherPath

definition get_data :: "video_reader \<Rightarrow> int \<Rightarrow> error + image" where
  "get_data rd i =
     (if 0 \<le> i \<and> i < int (length (rd_frames rd)) then Inr (rd_frames rd ! nat i)
      else Inl IndexError)"

definition meta_of :: "video_reader \<Rightarrow> (string \<rightharpoonup> meta_value)" where
  \<comment> \<open>lines 138 to 142\<close>
  "meta_of rd = (case rd_meta rd of None \<Rightarrow> Map.empty | Some m \<Rightarrow> m)"

definition fps_of_meta :: "(string \<rightharpoonup> meta_value) \<Rightarrow> error + int" where
  \<comment> \<open>lines 143 and 144\<close>
  "fps_of_meta meta =
     (let fps_val = (case meta ''fps'' of None \<Rightarrow> MInt 30 | Some v \<Rightarrow> v)
      in case fps_val of
           MInt i \<Rightarrow> Inr i
         | MFloat x \<Rightarrow> Inr (py_round x)
         | MInf \<Rightarrow> Inl OverflowError
         | MNaN \<Rightarrow> Inl NanRoundError
         | MOther \<Rightarrow> Inr 30)"

function manual_scan :: "image list \<Rightarrow> nat \<Rightarrow> nat" where
  \<comment> \<open>lines 156 to 161: decode frame \<open>n\<close>, \<open>n + 1\<close>, ... until \<^verbatim>\<open>get_data\<close> raises\<close>
  "manual_scan fs n = (if n < length fs then manual_scan fs (Suc n) else n)"
  by pat_completeness auto
termination
  by (relation "measure (\<lambda>(fs, n). length fs - n)") auto

declare manual_scan.simps [simp del]

definition count_frames :: "video_reader \<Rightarrow> (string \<rightharpoonup> meta_value) \<Rightarrow> int" where
  \<comment> \<open>lines 146 to 161\<close>
  "count_frames rd meta =
     (let scan = (case rd_count rd of
                    Some c \<Rightarrow> c
                  | None \<Rightarrow> int (manual_scan (rd_frames rd) 0))
      in case meta ''nframes'' of
           Some (MInt nf) \<Rightarrow> if 0 < nf then nf else scan
         | _ \<Rightarrow> scan)"

section \<open>Preparing the input\<close>

text \<open>
  \<^verbatim>\<open>prepare_input_tensor(path, scale)\<close>, lines 101 to 199. Each branch is written in two
  steps: the plan (everything up to the truncated list of paths or indices), then the frame
  loop and the returned tuple \<open>(vid, tH, tW, F, fps)\<close>.
\<close>

record prepared =
  p_vid :: video_shape
  p_tH :: int
  p_tW :: int
  p_F :: int
  p_fps :: int

definition plan_dir :: "pynum \<Rightarrow> image_file list \<Rightarrow> error + scale_plan \<times> image_file list \<times> int" where
  \<comment> \<open>lines 103 to 121\<close>
  "plan_dir scale paths0 =
     (if paths0 = [] then Inl NoImages
      else let img0 = snd (hd paths0); w0 = img_w img0; h0 = img_h img0
           in case compute_scaled_and_target_dims w0 h0 scale 2560 1440 128 of
                Inl e \<Rightarrow> Inl e
              | Inr sp \<Rightarrow>
                  (case pad_paths paths0 of
                     Inl e \<Rightarrow> Inl e
                   | Inr (paths, F) \<Rightarrow> Inr (sp, paths, F)))"

definition plan_video :: "pynum \<Rightarrow> video_reader \<Rightarrow> error + scale_plan \<times> int list \<times> int \<times> int" where
  \<comment> \<open>lines 134 to 181\<close>
  "plan_video scale rd =
     (case get_data rd 0 of Inl e \<Rightarrow> Inl e | Inr first \<Rightarrow>
      let w0 = img_w first; h0 = img_h first; meta = meta_of rd
      in case fps_of_meta meta of Inl e \<Rightarrow> Inl e | Inr fps \<Rightarrow>
         let total_n = count_frames rd meta
         in if total_n \<le> 0 then Inl CannotReadFrames
            else case compute_scaled_and_target_dims w0 h0 scale 2560 1440 128 of
                   Inl e \<Rightarrow> Inl e
                 | Inr sp \<Rightarrow>
                     (case pad_indices total_n of
                        Inl e \<Rightarrow> Inl e
                      | Inr (idx, F) \<Rightarrow> Inr (sp, idx, F, fps)))"

definition finish :: "scale_plan \<Rightarrow> error + frame_shape list \<Rightarrow> int \<Rightarrow> int \<Rightarrow> error + prepared" where
  \<comment> \<open>lines 129 to 131 and 196 to 197\<close>
  "finish sp frames F fps =
     (case frames of Inl e \<Rightarrow> Inl e | Inr fs \<Rightarrow>
      case stack_frames fs of Inl e \<Rightarrow> Inl e | Inr vid \<Rightarrow>
      Inr \<lparr>p_vid = vid, p_tH = plan_tH sp, p_tW = plan_tW sp, p_F = F, p_fps = fps\<rparr>)"

definition prepare_input_tensor :: "source \<Rightarrow> pynum \<Rightarrow> error + prepared" where
  "prepare_input_tensor src scale =
     (case src of
        ImageDir paths0 \<Rightarrow>
          (case plan_dir scale paths0 of Inl e \<Rightarrow> Inl e | Inr (sp, paths, F) \<Rightarrow>
           finish sp
             (for_frames
                (\<lambda>p. transform_frame (snd p) (plan_sW sp) (plan_sH sp) (plan_tW sp) (plan_tH sp))
                paths)
             F 30)
      | VideoFile rd \<Rightarrow>
          (case plan_video scale rd of Inl e \<Rightarrow> Inl e | Inr (sp, idx, F, fps) \<Rightarrow>
           finish sp
             (for_frames
                (\<lambda>i. case get_data rd i of
                        Inl e \<Rightarrow> Inl e
                      | Inr img \<Rightarrow>
                          transform_frame img (plan_sW sp) (plan_sH sp) (plan_tW sp) (plan_tH sp))
                idx)
             F fps)
      | OtherPath \<Rightarrow> Inl UnsupportedInput)"


section \<open>Example sources\<close>

text \<open>
  Concrete sources on which the theorems below are instantiated: a directory of five
  1280 by 720 images, a video of five such frames whose metadata reports 29.97 frames per
  second and no usable frame count, a video without any frame (no frame can be decoded,
  there is no metadata, \<^verbatim>\<open>count_frames\<close> raises and the scan finds nothing), and a reader
  that decodes one frame although its \<^verbatim>\<open>count_frames\<close> answers 0.
\<close>

definition frame_720p :: image where
  "frame_720p = \<lparr>img_w = 1280, img_h = 720\<rparr>"

definition example_dir :: "image_file list" where
  "example_dir =
     [(''f1.png'', frame_720p), (''f2.png'', frame_720p), (''f3.png'', frame_720p),
      (''f4.png'', frame_720p), (''f5.png'', frame_720p)]"

definition example_video :: video_reader where
  "example_video =
     \<lparr>rd_frames = replicate 5 frame_720p,
      rd_meta = Some [''fps'' \<mapsto> MFloat (fl (2997 / 100)), ''nframes'' \<mapsto> MInf],
      rd_count = Some 5\<rparr>"

definition empty_video :: video_reader where
  "empty_video = \<lparr>rd_frames = [], rd_meta = None, rd_count = None\<rparr>"

definition miscounting_reader :: video_reader where
  "miscounting_reader = \<lparr>rd_frames = [frame_720p], rd_meta = None, rd_count = Some 0\<rparr>"

section \<open>Evaluating the float model\<close>

lemma log2_ge1_eq: "2 ^ n \<le> q \<Longrightarrow> q < 2 ^ Suc n \<Longrightarrow> log2_ge1 q = int n"
proof (induction n arbitrary: q)
  case 0
  then show ?case by (simp add: log2_ge1.simps)
next
  case (Suc n)
  have "(2::rat) * 1 \<le> 2 * 2 ^ n" by (intro mult_left_mono) simp_all
  also have "\<dots> \<le> q" using Suc.prems(1) by simp
  finally have ge: "\<not> q < 2" by simp
  have "log2_ge1 (q / 2) = int n"
    using Suc.prems by (intro Suc.IH) simp_all
  with ge show ?case by (subst log2_ge1.simps) simp
qed

lemma log2_lt1_eq:
  "0 < q \<Longrightarrow> 1 \<le> q * 2 ^ n \<Longrightarrow> q * 2 ^ n < 2 \<Longrightarrow> 0 < n \<Longrightarrow> log2_lt1 q = - int n"
proof (induction n arbitrary: q)
  case 0
  then show ?case by simp
next
  case (Suc n)
  have "(1::rat) \<le> 2 ^ n" by simp
  then have "q * 1 \<le> q * 2 ^ n" using Suc.prems(1) by (intro mult_left_mono) simp_all
  moreover have "q * 2 ^ n < 1" using Suc.prems(3) by simp
  ultimately have lt: "q < 1" by simp
  show ?case
  proof (cases "n = 0")
    case True
    with Suc.prems lt show ?thesis
      by (subst log2_lt1.simps, subst log2_lt1.simps) simp
  next
    case False
    then have "log2_lt1 (2 * q) = - int n"
      using Suc.prems by (intro Suc.IH) (simp_all add: mult.assoc mult.commute mult.left_commute)
    with lt Suc.prems(1) show ?thesis by (subst log2_lt1.simps) simp
  qed
qed

lemma floor_log2_eq:
  assumes "pow2 e \<le> q" "q < pow2 (e + 1)"
  shows "floor_log2 q = e"
proof (cases "0 \<le> e")
  case True
  then have b: "2 ^ nat e \<le> q" "q < 2 ^ Suc (nat e)"
    using assms by (simp_all add: pow2_def nat_add_distrib)
  have "(1::rat) \<le> 2 ^ nat e" by (rule one_le_power) simp
  also note b(1)
  finally have "1 \<le> q" .
  moreover have "log2_ge1 q = int (nat e)"
    using b by (rule log2_ge1_eq)
  ultimately show ?thesis
    using True by (simp add: floor_log2_def)
next
  case False
  define n where "n = nat (- e)"
  have n: "0 < n" "e = - int n" using False by (simp_all add: n_def)
  have p: "pow2 e = 1 / 2 ^ n" using False by (simp add: pow2_def n_def)
  have p1: "pow2 (e + 1) = 2 / 2 ^ n"
  proof (cases "e + 1 = 0")
    case True then show ?thesis using n by (simp add: pow2_def)
  next
    case f: False
    then have "nat (- (e + 1)) = n - 1" using False by (simp add: n_def)
    moreover have "(2::rat) ^ n = 2 * 2 ^ (n - 1)" using n(1) by (cases n) simp_all
    ultimately show ?thesis using False f by (simp add: pow2_def)
  qed
  have "(0::rat) < 1 / 2 ^ n" by simp
  also have "\<dots> \<le> q" using assms(1) by (simp only: p)
  finally have q0: "0 < q" .
  have a: "1 \<le> q * 2 ^ n" using assms(1) by (simp add: p pos_divide_le_eq)
  have b: "q * 2 ^ n < 2" using assms(2) by (simp add: p1 pos_less_divide_eq)
  have "(2::rat) \<le> 2 ^ n" using n(1) by (cases n) simp_all
  then have "q * 2 \<le> q * 2 ^ n" using q0 by (intro mult_left_mono) simp_all
  with b have "q < 1" by simp
  then show ?thesis
    using log2_lt1_eq [OF q0 a b n(1)] n by (simp add: floor_log2_def)
qed

lemma fl_eval:
  assumes "pow2 e \<le> \<bar>q\<bar>" "\<bar>q\<bar> < pow2 (e + 1)" "- 1022 \<le> e"
  shows "fl q = of_int (py_round (q / pow2 (e - 52))) * pow2 (e - 52)"
proof -
  have "0 < pow2 e" by (simp add: pow2_def)
  with assms(1) have "q \<noteq> 0" by auto
  then show ?thesis
    using floor_log2_eq [OF assms(1,2)] assms(3) by (simp add: fl_def max_def Let_def)
qed

lemma floor_rat_numeral_div:
  "\<lfloor>numeral a / numeral b :: rat\<rfloor> = numeral a div numeral b"
  by (metis floor_divide_of_int_eq of_int_numeral)

lemmas fl_simps = pow2_def py_round_def Let_def floor_rat_numeral_div

lemma fl_1 [simp]: "fl 1 = 1"
  by (subst fl_eval [where e = 0]) (simp_all add: fl_simps)

lemma fl_2 [simp]: "fl 2 = 2"
  by (subst fl_eval [where e = 1]) (simp_all add: fl_simps)

lemma fl_4_3: "fl (4 / 3) = 6004799503160661 / 4503599627370496"
  by (subst fl_eval [where e = 0]) (simp_all add: fl_simps)

lemma fl_2_3: "fl (2 / 3) = 6004799503160661 / 9007199254740992"
  by (subst fl_eval [where e = "- 1"]) (simp_all add: fl_simps)

lemma finite_float_small: "\<bar>r\<bar> < 2 ^ 64 \<Longrightarrow> finite_float r"
proof -
  assume "\<bar>r\<bar> < 2 ^ 64"
  also have "(2::rat) ^ 64 \<le> 2 ^ 1024" by (rule power_increasing) simp_all
  finally show ?thesis by (simp only: finite_float_def)
qed

lemma fl_720: "fl 720 = 720"
  by (subst fl_eval [where e = 9]) (simp_all add: fl_simps)

lemma fl_1080: "fl 1080 = 1080"
  by (subst fl_eval [where e = 10]) (simp_all add: fl_simps)

lemma fl_1280: "fl 1280 = 1280"
  by (subst fl_eval [where e = 10]) (simp_all add: fl_simps)

lemma fl_1920: "fl 1920 = 1920"
  by (subst fl_eval [where e = 10]) (simp_all add: fl_simps)

lemma fl_2160: "fl 2160 = 2160"
  by (subst fl_eval [where e = 11]) (simp_all add: fl_simps)

lemma fl_3840: "fl 3840 = 3840"
  by (subst fl_eval [where e = 11]) (simp_all add: fl_simps)

lemmas fl_ints = fl_720 fl_1080 fl_1280 fl_1920 fl_2160 fl_3840

lemma fl_1920_scaled: "fl (1920 * fl (4 / 3)) = 2560"
  unfolding fl_4_3 by (subst fl_eval [where e = 11]) (simp_all add: fl_simps)

lemma fl_1080_scaled: "fl (1080 * fl (4 / 3)) = 1440"
  unfolding fl_4_3 by (subst fl_eval [where e = 10]) (simp_all add: fl_simps)

lemma py_round_int [simp]: "py_round (of_int k) = k"
  by (simp add: py_round_def)

lemma py_round_numeral [simp]: "py_round (numeral k) = numeral k"
  using py_round_int [of "numeral k"] by simp

lemma mul_round_eval:
  assumes "fl (of_int w) = x" "finite_float x" "fl (x * s) = p" "finite_float p"
  shows "mul_round w (PyFloat s) = Inr (py_round p)"
  using assms by (simp add: Let_def)

lemma true_div_4_3:
  "true_div 2560 1920 = Inr (fl (4 / 3))" "true_div 1440 1080 = Inr (fl (4 / 3))"
  by (simp_all add: true_div_def Let_def finite_float_small fl_4_3)

lemma mul_round_1920: "mul_round 1920 (PyFloat (fl (4 / 3))) = Inr 2560"
  using mul_round_eval [of 1920 1920 "fl (4 / 3)" 2560]
  by (simp only: of_int_numeral fl_1920 fl_1920_scaled py_round_numeral)
     (simp add: finite_float_small)

lemma mul_round_1080: "mul_round 1080 (PyFloat (fl (4 / 3))) = Inr 1440"
  using mul_round_eval [of 1080 1080 "fl (4 / 3)" 1440]
  by (simp only: of_int_numeral fl_1080 fl_1080_scaled py_round_numeral)
     (simp add: finite_float_small)

lemma target_dims_2560_1440: "target_dims 2560 1440 2560 1440 128 = (2560, 1408)"
  by (simp add: target_dims_def)

lemma scale_eff_4_3:
  "py_max2 (PyFloat 1) (py_min3 (PyInt 4) (PyFloat (fl (4 / 3))) (PyFloat (fl (4 / 3))))
     = PyFloat (fl (4 / 3))"
  "py_max2 (PyFloat 1) (py_min3 (PyFloat 4) (PyFloat (fl (4 / 3))) (PyFloat (fl (4 / 3))))
     = PyFloat (fl (4 / 3))"
  by (simp_all add: py_min3_def py_min2_def py_max2_def fl_4_3)

lemma plan_1920_1080:
  "compute_scaled_and_target_dims 1920 1080 (PyInt 4) 2560 1440 128 =
     Inr (2560, 1440, 2560, 1408, PyFloat (fl (4 / 3)))"
  by (simp add: compute_scaled_and_target_dims_def true_div_4_3 scale_eff_4_3
      mul_round_1920 mul_round_1080 target_dims_2560_1440 Let_def del: mul_round.simps)

lemma plan_1920_1080_float:
  "compute_scaled_and_target_dims 1920 1080 (PyFloat 4) 2560 1440 128 =
     Inr (2560, 1440, 2560, 1408, PyFloat (fl (4 / 3)))"
  by (simp add: compute_scaled_and_target_dims_def true_div_4_3 scale_eff_4_3
      mul_round_1920 mul_round_1080 target_dims_2560_1440 Let_def del: mul_round.simps)

lemma true_div_2_3:
  "true_div 2560 3840 = Inr (fl (2 / 3))" "true_div 1440 2160 = Inr (fl (2 / 3))"
  by (simp_all add: true_div_def Let_def finite_float_small fl_2_3)

lemma true_div_2:
  "true_div 2560 1280 = Inr 2" "true_div 1440 720 = Inr 2"
  by (simp_all add: true_div_def Let_def finite_float_small)

lemma mul_round_one:
  assumes "fl (of_int w) = of_int w" "\<bar>of_int w :: rat\<bar> < 2 ^ 64"
  shows "mul_round w (PyFloat 1) = Inr w"
  using mul_round_eval [of w "of_int w" 1 "of_int w"] assms
  by (simp add: finite_float_small del: mul_round.simps)

lemma mul_round_one_evals:
  "mul_round 3840 (PyFloat 1) = Inr 3840" "mul_round 2160 (PyFloat 1) = Inr 2160"
  "mul_round 1280 (PyFloat 1) = Inr 1280" "mul_round 720 (PyFloat 1) = Inr 720"
  using mul_round_one [of 3840] mul_round_one [of 2160] mul_round_one [of 1280]
    mul_round_one [of 720]
  by (simp_all add: fl_ints del: mul_round.simps)

lemma scale_eff_one:
  "py_max2 (PyFloat 1) (py_min3 (PyInt 4) (PyFloat (fl (2 / 3))) (PyFloat (fl (2 / 3))))
     = PyFloat 1"
  "py_max2 (PyFloat 1) (py_min3 (PyFloat (1 / 2)) (PyFloat 2) (PyFloat 2)) = PyFloat 1"
  by (simp_all add: py_min3_def py_min2_def py_max2_def fl_2_3)

lemma plan_3840_2160:
  "compute_scaled_and_target_dims 3840 2160 (PyInt 4) 2560 1440 128 =
     Inr (3840, 2160, 2560, 1440, PyFloat 1)"
  by (simp add: compute_scaled_and_target_dims_def true_div_2_3 scale_eff_one
      mul_round_one_evals target_dims_def Let_def del: mul_round.simps)

lemma plan_1280_720_half:
  "compute_scaled_and_target_dims 1280 720 (PyFloat (1 / 2)) 2560 1440 128 =
     Inr (1280, 720, 1280, 768, PyFloat 1)"
  by (simp add: compute_scaled_and_target_dims_def true_div_2 scale_eff_one
      mul_round_one_evals target_dims_def Let_def del: mul_round.simps)

section \<open>The planner in general\<close>

lemma planner_Inr:
  assumes "compute_scaled_and_target_dims w0 h0 scale max_w max_h multiple = Inr sp"
  obtains rw rh where
    "0 < w0" "0 < h0" "multiple \<noteq> 0"
    "true_div max_w w0 = Inr rw" "true_div max_h h0 = Inr rh"
    "plan_scale sp = py_max2 (PyFloat 1) (py_min3 scale (PyFloat rw) (PyFloat rh))"
    "mul_round w0 (plan_scale sp) = Inr (plan_sW sp)"
    "mul_round h0 (plan_scale sp) = Inr (plan_sH sp)"
    "target_dims (plan_sW sp) (plan_sH sp) max_w max_h multiple = (plan_tW sp, plan_tH sp)"
  using assms
  by (auto simp: compute_scaled_and_target_dims_def Let_def
      split: if_splits sum.splits prod.splits simp del: mul_round.simps)

lemma scale_eff_bounds:
  "1 \<le> num_val (py_max2 (PyFloat 1) (py_min3 scale a b))"
  "num_val (py_max2 (PyFloat 1) (py_min3 scale a b)) \<le> max 1 (num_val scale)"
  by (auto simp: py_max2_def py_min3_def py_min2_def)

lemma target_dims_le:
  assumes "target_dims sW sH max_w max_h m = (tW, tH)"
  shows "tW \<le> max_w" "tH \<le> max_h"
  using assms by (auto simp: target_dims_def Let_def split: if_splits)

lemma block_multiple: "0 < m \<Longrightarrow> 0 < max m (k * m) \<and> m dvd max m (k * m)" for m :: int
  by (simp add: max_def)

lemma target_dims_multiple:
  fixes m :: int
  assumes "target_dims sW sH max_w max_h m = (tW, tH)"
    and "0 < m" "0 < max_w" "0 < max_h" "m dvd max_w" "m dvd max_h"
  shows "0 < tW \<and> m dvd tW \<and> 0 < tH \<and> m dvd tH"
proof -
  note b = block_multiple [OF \<open>0 < m\<close>]
  show ?thesis
    using assms b [of "sW div m"] b [of "sH div m"]
      b [of "(sW + m - 1) div m"] b [of "(sH + m - 1) div m"]
    by (auto simp: target_dims_def Let_def min_def split: if_splits)
qed

section \<open>Claims about the planner\<close>

text \<open>
  C1, as amended. For \<open>w0 = 1920\<close>, \<open>h0 = 1080\<close>, \<open>scale = 4\<close> (the int that the driver
  passes, or the float \<open>4.0\<close>), \<open>max_w = 2560\<close>, \<open>max_h = 1440\<close> and \<open>multiple = 128\<close> the
  planner returns the effective scale \<open>4/3\<close> rounded to a float (which is
  \<open>6004799503160661 / 2^52\<close>), the scaled size \<open>2560 \<times> 1440\<close> and the target size
  \<open>2560 \<times> 1408\<close>: 1440 is not a multiple of 128, the next multiple 1536 exceeds
  \<open>max_h\<close>, so the height is rounded down to \<open>11 * 128\<close>.
\<close>

theorem C1_plan_1920_1080:
  "compute_scaled_and_target_dims 1920 1080 (PyInt 4) 2560 1440 128 =
     Inr (2560, 1440, 2560, 1408, PyFloat (fl (4 / 3))) \<and>
   compute_scaled_and_target_dims 1920 1080 (PyFloat 4) 2560 1440 128 =
     Inr (2560, 1440, 2560, 1408, PyFloat (fl (4 / 3))) \<and>
   fl (4 / 3) = 6004799503160661 / 2 ^ 52 \<and>
   (1408::int) = 11 * 128 \<and> \<not> (128::int) dvd 1440"
  by (simp add: plan_1920_1080 plan_1920_1080_float fl_4_3)

text \<open>
  C1 as stated gives the target height 1440; the planner's target height at that input is
  not 1440.
\<close>

theorem C1_counterexample:
  "map_sum id plan_tH (compute_scaled_and_target_dims 1920 1080 (PyInt 4) 2560 1440 128)
     \<noteq> Inr 1440"
  by (simp add: plan_1920_1080)

text \<open>
  C2 at a failing input. A 3840 by 2160 source with the driver's own bounds (2560, 1440)
  and block size 128 is not enlarged, rounding up is not possible, and the rounded-down
  height 2048 is cut to \<open>max_h = 1440\<close>, which is not a multiple of the block size: the
  planner returns the target \<open>2560 \<times> 1440\<close>.
\<close>

theorem C2_target_not_block_multiple:
  "compute_scaled_and_target_dims 3840 2160 (PyInt 4) 2560 1440 128 =
     Inr (3840, 2160, 2560, 1440, PyFloat 1) \<and>
   \<not> (128::int) dvd 1440"
  by (simp add: plan_3840_2160)

text \<open>
  What the planner does guarantee for its targets: they never exceed the bounds, and they
  are positive multiples of the block size when the block size is positive and both bounds
  are positive multiples of it.
\<close>

lemma planner_targets:
  assumes "compute_scaled_and_target_dims w0 h0 scale max_w max_h multiple = Inr sp"
  shows "plan_tW sp \<le> max_w \<and> plan_tH sp \<le> max_h"
    and "0 < multiple \<Longrightarrow> 0 < max_w \<Longrightarrow> 0 < max_h \<Longrightarrow> multiple dvd max_w \<Longrightarrow>
         multiple dvd max_h \<Longrightarrow>
         0 < plan_tW sp \<and> multiple dvd plan_tW sp \<and> 0 < plan_tH sp \<and> multiple dvd plan_tH sp"
proof -
  from assms have
    t: "target_dims (plan_sW sp) (plan_sH sp) max_w max_h multiple = (plan_tW sp, plan_tH sp)"
    by (rule planner_Inr)
  show "plan_tW sp \<le> max_w \<and> plan_tH sp \<le> max_h"
    using target_dims_le [OF t] by simp
  show "0 < plan_tW sp \<and> multiple dvd plan_tW sp \<and> 0 < plan_tH sp \<and> multiple dvd plan_tH sp"
    if "0 < multiple" "0 < max_w" "0 < max_h" "multiple dvd max_w" "multiple dvd max_h"
    using target_dims_multiple [OF t that] .
qed

text \<open>
  C3, as amended. Whenever the planner returns, the effective scale is at least 1 and at
  most the larger of 1 and the requested scale: it is at most the requested scale when
  that is 1 or more, and it is 1, above the requested scale, when that is below 1.
\<close>

theorem C3_effective_scale_bounds:
  assumes "compute_scaled_and_target_dims w0 h0 scale max_w max_h multiple = Inr sp"
  shows "1 \<le> num_val (plan_scale sp) \<and> num_val (plan_scale sp) \<le> max 1 (num_val scale)"
proof -
  from assms obtain rw rh where
    "plan_scale sp = py_max2 (PyFloat 1) (py_min3 scale (PyFloat rw) (PyFloat rh))"
    by (rule planner_Inr)
  then show ?thesis
    by (simp only: scale_eff_bounds)
qed

text \<open>The bounds of C3 at the 1920 by 1080 source with the requested scale 4.\<close>

theorem C3_witness:
  "compute_scaled_and_target_dims 1920 1080 (PyInt 4) 2560 1440 128 =
     Inr (2560, 1440, 2560, 1408, PyFloat (fl (4 / 3))) \<and>
   1 \<le> fl (4 / 3) \<and> fl (4 / 3) \<le> 4"
  using C3_effective_scale_bounds [OF plan_1920_1080] plan_1920_1080 by simp

text \<open>
  C3 as stated bounds the effective scale by the requested scale; for the requested scale
  \<open>0.5\<close> the planner returns the effective scale \<open>1.0\<close>.
\<close>

theorem C3_counterexample:
  "compute_scaled_and_target_dims 1280 720 (PyFloat (1 / 2)) 2560 1440 128 =
     Inr (1280, 720, 1280, 768, PyFloat 1) \<and>
   \<not> num_val (PyFloat 1) \<le> num_val (PyFloat (1 / 2))"
  by (simp add: plan_1280_720_half)


section \<open>Padding in general\<close>

lemma largest_8n1_leq_props:
  assumes "1 \<le> n"
  shows "1 \<le> largest_8n1_leq n" "largest_8n1_leq n mod 8 = 1"
    "largest_8n1_leq n \<le> n" "n - 7 \<le> largest_8n1_leq n"
  using assms by (simp_all add: largest_8n1_leq_def)

lemma length_padded_idx:
  "int (length ([0..n - 1] @ replicate 4 (n - 1))) = max 0 n + 4"
  by simp

lemma pad_indices_Inr:
  "pad_indices n =
     Inr (take (nat (largest_8n1_leq (max 0 n + 4))) ([0..n - 1] @ replicate 4 (n - 1)),
          largest_8n1_leq (max 0 n + 4))"
proof -
  have "1 \<le> largest_8n1_leq (max 0 n + 4)"
    by (rule largest_8n1_leq_props) simp
  then show ?thesis
    unfolding pad_indices_def Let_def length_padded_idx by simp
qed

lemma pad_paths_Inr:
  assumes "paths0 \<noteq> []"
  shows "pad_paths paths0 =
     Inr (take (nat (largest_8n1_leq (int (length paths0) + 4)))
            (paths0 @ replicate 4 (last paths0)),
          largest_8n1_leq (int (length paths0) + 4))"
proof -
  have "1 \<le> largest_8n1_leq (int (length paths0) + 4)"
    by (rule largest_8n1_leq_props) simp
  then show ?thesis
    using assms by (simp add: pad_paths_def Let_def)
qed

lemma padded_idx_nth:
  assumes "1 \<le> n" "i < nat n + 4"
  shows "([0..n - 1] @ replicate 4 (n - 1)) ! i = min (int i) (n - 1)"
proof (cases "i < nat n")
  case True
  then have "([0..n - 1] @ replicate 4 (n - 1)) ! i = [0..n - 1] ! i"
    by (simp add: nth_append)
  also have "\<dots> = 0 + int i" using True by (intro nth_upto) simp
  finally show ?thesis using True by simp
next
  case False
  then have "([0..n - 1] @ replicate 4 (n - 1)) ! i = replicate 4 (n - 1) ! (i - nat n)"
    using assms by (simp add: nth_append)
  also have "\<dots> = n - 1" using assms False by (intro nth_replicate) simp
  finally show ?thesis using False assms by simp
qed

lemma take_upto: "0 \<le> k \<Longrightarrow> k \<le> m + 1 \<Longrightarrow> take (nat k) [0..m] = [0..k - 1]"
proof -
  assume k: "0 \<le> k" "k \<le> m + 1"
  show ?thesis
  proof (cases "k = m + 1")
    case True then show ?thesis by simp
  next
    case False
    with k have "[0..m] = [0..k - 1] @ [k..m]"
      using upto_split1 [of 0 k m] by simp
    then show ?thesis using k by simp
  qed
qed

lemma largest_8n1_leq_cases:
  assumes "1 \<le> n"
  shows "n \<le> largest_8n1_leq (n + 4) \<longleftrightarrow> n mod 8 \<in> {0, 1, 5, 6, 7}"
    and "largest_8n1_leq (n + 4) - n \<le> 4" and "n - largest_8n1_leq (n + 4) \<le> 3"
  using assms by (simp_all add: largest_8n1_leq_def) presburger+

lemma pad_indices_structure:
  assumes "1 \<le> n"
  defines "F \<equiv> largest_8n1_leq (n + 4)"
  defines "idx \<equiv> take (nat F) ([0..n - 1] @ replicate 4 (n - 1))"
  shows "pad_indices n = Inr (idx, F)"
    and "int (length idx) = F"
    and "\<forall>i < length idx. idx ! i = min (int i) (n - 1)"
    and "n \<le> F \<Longrightarrow> idx = [0..n - 1] @ replicate (nat (F - n)) (n - 1)"
    and "F < n \<Longrightarrow> idx = [0..F - 1]"
proof -
  have F: "1 \<le> F" "F \<le> n + 4"
    using largest_8n1_leq_props [of "n + 4"] assms(1) by (simp_all add: F_def)
  show "pad_indices n = Inr (idx, F)"
    using assms(1) by (simp add: pad_indices_Inr idx_def F_def max_def)
  show len: "int (length idx) = F"
    using F assms(1) by (simp add: idx_def)
  show "\<forall>i < length idx. idx ! i = min (int i) (n - 1)"
  proof (intro allI impI)
    fix i assume i: "i < length idx"
    then have "i < nat n + 4" using len F by linarith
    then have "([0..n - 1] @ replicate 4 (n - 1)) ! i = min (int i) (n - 1)"
      using assms(1) by (intro padded_idx_nth)
    moreover have "i < nat F" using i len by linarith
    ultimately show "idx ! i = min (int i) (n - 1)"
      unfolding idx_def by (simp only: nth_take)
  qed
  show "idx = [0..n - 1] @ replicate (nat (F - n)) (n - 1)" if "n \<le> F"
  proof -
    have "nat F - nat n = nat (F - n)" "nat (F - n) \<le> 4"
      using that F assms(1) by linarith+
    then show ?thesis
      using that assms(1) by (simp add: idx_def min_def)
  qed
  show "idx = [0..F - 1]" if "F < n"
  proof -
    have "nat F \<le> length [0..n - 1]" using that F by simp
    then have "idx = take (nat F) [0..n - 1]" by (simp add: idx_def)
    also have "\<dots> = [0..F - 1]" using that F by (intro take_upto) simp_all
    finally show ?thesis .
  qed
qed



section \<open>Claims about the temporal padding\<close>

text \<open>
  C4. For every source length \<open>n \<ge> 1\<close> the padding of the video branch (and, for a
  non-empty list of paths, that of the directory branch) returns a plan of \<open>F\<close> entries
  with \<open>F mod 8 = 1\<close>, \<open>F \<le> n + 4\<close> and \<open>F - 4 \<le> n\<close>, where \<open>F\<close> is
  \<^verbatim>\<open>largest_8n1_leq\<close> of the padded length. For \<open>n = 17\<close> the padded length is 21,
  \<open>F = 17\<close> and the usable frame count \<open>F - 4\<close> is 13.
\<close>

theorem C4_frame_count:
  "(1 \<le> n \<longrightarrow>
      (\<exists>idx F. pad_indices n = Inr (idx, F) \<and> int (length idx) = F \<and>
         F = largest_8n1_leq (n + 4) \<and> F mod 8 = 1 \<and> F \<le> n + 4 \<and> F - 4 \<le> n)) \<and>
   (paths0 \<noteq> [] \<longrightarrow>
      (\<exists>paths F. pad_paths paths0 = Inr (paths, F) \<and> int (length paths) = F \<and>
         F = largest_8n1_leq (int (length paths0) + 4) \<and> F mod 8 = 1 \<and>
         F \<le> int (length paths0) + 4 \<and> F - 4 \<le> int (length paths0))) \<and>
   int (length ([0..17 - 1] @ replicate 4 (17 - 1))) = 21 \<and>
   largest_8n1_leq 21 = 17 \<and>
   pad_indices 17 = Inr ([0..16], 17) \<and> (17::int) - 4 = 13"
proof (intro conjI impI)
  assume n: "1 \<le> n"
  have "largest_8n1_leq (n + 4) mod 8 = 1" "largest_8n1_leq (n + 4) \<le> n + 4"
    using largest_8n1_leq_props [of "n + 4"] n by simp_all
  then show "\<exists>idx F. pad_indices n = Inr (idx, F) \<and> int (length idx) = F \<and>
         F = largest_8n1_leq (n + 4) \<and> F mod 8 = 1 \<and> F \<le> n + 4 \<and> F - 4 \<le> n"
    using pad_indices_structure(1,2) [OF n] by simp
next
  assume d: "paths0 \<noteq> []"
  define F where "F = largest_8n1_leq (int (length paths0) + 4)"
  have F: "1 \<le> F" "F mod 8 = 1" "F \<le> int (length paths0) + 4"
    using largest_8n1_leq_props [of "int (length paths0) + 4"] by (simp_all add: F_def)
  then have "int (length (take (nat F) (paths0 @ replicate 4 (last paths0)))) = F"
    by simp
  with F show "\<exists>paths F. pad_paths paths0 = Inr (paths, F) \<and> int (length paths) = F \<and>
         F = largest_8n1_leq (int (length paths0) + 4) \<and> F mod 8 = 1 \<and>
         F \<le> int (length paths0) + 4 \<and> F - 4 \<le> int (length paths0)"
    using pad_paths_Inr [OF d] by (simp add: F_def)
next
  show "largest_8n1_leq 21 = 17" by (simp add: largest_8n1_leq_def)
  then show "pad_indices 17 = Inr ([0..16], 17)"
    by (simp add: pad_indices_Inr)
qed simp_all

text \<open>
  C4 at the source length 17 and at a directory of two images.
\<close>

theorem C4_witness:
  "(1::int) \<le> 17 \<and> [''f1.png'', ''f2.png''] \<noteq> [] \<and>
   pad_indices 17 = Inr ([0..16], 17) \<and> (17::int) mod 8 = 1 \<and>
   pad_paths [''f1.png'', ''f2.png''] = Inr ([''f1.png''], 1)"
  using C4_frame_count [of 17 "[''f1.png'', ''f2.png'']"]
  by (simp add: pad_paths_Inr largest_8n1_leq_def)

text \<open>
  C6, as amended. For \<open>n \<ge> 1\<close> source frames the plan has \<open>F\<close> entries and its entry
  \<open>i\<close> is \<open>min i (n - 1)\<close>. When \<open>n mod 8\<close> is 0, 1, 5, 6 or 7, \<open>F \<ge> n\<close>: the plan is
  \<open>0..n-1\<close> followed by \<open>F - n \<le> 4\<close> copies of the last index \<open>n - 1\<close>. When
  \<open>n mod 8\<close> is 2, 3 or 4, \<open>F < n\<close>: the truncation to \<open>F\<close> entries removes the padding
  and the last \<open>n - F \<le> 3\<close> source frames, and the plan is \<open>0..F-1\<close>.
\<close>

theorem C6_index_plan:
  assumes "1 \<le> n"
  shows "\<exists>idx F. pad_indices n = Inr (idx, F) \<and> int (length idx) = F \<and>
           (\<forall>i < length idx. idx ! i = min (int i) (n - 1)) \<and>
           (n \<le> F \<longleftrightarrow> n mod 8 \<in> {0, 1, 5, 6, 7}) \<and>
           (n \<le> F \<longrightarrow> idx = [0..n - 1] @ replicate (nat (F - n)) (n - 1) \<and> F - n \<le> 4) \<and>
           (F < n \<longrightarrow> idx = [0..F - 1] \<and> n - F \<le> 3)"
  using pad_indices_structure [OF assms] largest_8n1_leq_cases [OF assms]
  by (intro exI conjI) (assumption | simp)+

text \<open>
  C6 at five source frames: all of them, then four copies of the last.
\<close>

theorem C6_witness:
  "(1::int) \<le> 5 \<and> pad_indices 5 = Inr ([0, 1, 2, 3, 4, 4, 4, 4, 4], 9) \<and>
   (\<exists>idx F. pad_indices 5 = Inr (idx, F) \<and> int (length idx) = F \<and>
           (\<forall>i < length idx. idx ! i = min (int i) (5 - 1)) \<and>
           (5 \<le> F \<longrightarrow> idx = [0..5 - 1] @ replicate (nat (F - 5)) (5 - 1) \<and> F - 5 \<le> 4))"
  using C6_index_plan [of 5]
  by (auto simp: pad_indices_Inr largest_8n1_leq_def upto_rec1 numeral_eq_Suc)

text \<open>
  C6 as stated fails at twelve source frames: the plan has nine entries, so its first
  twelve entries are not \<open>0..11\<close>, and its last entry is 8, not the last index 11.
\<close>

theorem C6_counterexample:
  "pad_indices 12 = Inr ([0, 1, 2, 3, 4, 5, 6, 7, 8], 9) \<and>
   take 12 [0, 1, 2, 3, 4, 5, 6, 7, 8] \<noteq> [0..12 - 1] \<and>
   last [0, 1, 2, 3, 4, 5, 6, 7, 8] \<noteq> (12::int) - 1"
  by (simp add: pad_indices_Inr largest_8n1_leq_def upto_rec1)

section \<open>Frames in general\<close>

lemma upscale_then_center_crop_ok:
  assumes "1 \<le> sW" "1 \<le> sH" "0 \<le> tW" "0 \<le> tH"
  shows "upscale_then_center_crop img sW sH tW tH = Inr \<lparr>img_w = tW, img_h = tH\<rparr>"
  using assms by (simp add: upscale_then_center_crop_def resize_def crop_def Let_def)

lemma transform_frame_ok:
  assumes "1 \<le> sW" "1 \<le> sH" "0 \<le> tW" "0 \<le> tH"
  shows "transform_frame img sW sH tW tH = Inr (3, tH, tW)"
  using assms
  by (simp add: transform_frame_def upscale_then_center_crop_ok pil_to_tensor_neg1_1_def)

lemma for_frames_const:
  "(\<And>x. x \<in> set xs \<Longrightarrow> f x = Inr y) \<Longrightarrow> for_frames f xs = Inr (replicate (length xs) y)"
  by (induction xs) simp_all

lemma stack_frames_replicate:
  "0 < n \<Longrightarrow> stack_frames (replicate n (c, h, w)) = Inr (1, c, int n, h, w)"
  by (cases n) (simp_all add: stack_frames_def list_all_iff)

section \<open>Errors\<close>

lemma true_div_error: "true_div a b = Inl e \<Longrightarrow> e = OverflowError"
  by (simp add: true_div_def Let_def split: if_splits)

lemma mul_round_error: "mul_round w s = Inl e \<Longrightarrow> e = OverflowError"
  by (cases s) (simp_all add: Let_def split: if_splits)

lemma planner_error:
  "compute_scaled_and_target_dims w0 h0 scale max_w max_h multiple = Inl e \<Longrightarrow>
     e \<in> {InvalidOriginalSize, OverflowError, ZeroDivisionError}"
  by (auto simp: compute_scaled_and_target_dims_def Let_def
      split: if_splits sum.splits prod.splits
      dest: true_div_error mul_round_error simp del: mul_round.simps)

lemma transform_frame_error: "transform_frame img sW sH tW tH = Inl e \<Longrightarrow> e = PILValueError"
  by (auto simp: transform_frame_def upscale_then_center_crop_def resize_def crop_def Let_def
      split: if_splits sum.splits)

lemma get_data_error: "get_data rd i = Inl e \<Longrightarrow> e = IndexError"
  by (simp add: get_data_def split: if_splits)

lemma for_frames_error: "for_frames f xs = Inl e \<Longrightarrow> \<exists>x \<in> set xs. f x = Inl e"
  by (induction xs) (auto split: sum.splits)

lemma stack_frames_error: "stack_frames fs = Inl e \<Longrightarrow> e = StackError"
  by (auto simp: stack_frames_def split: list.splits if_splits prod.splits)

lemma finish_error: "finish sp frames F fps = Inl e \<Longrightarrow> frames = Inl e \<or> e = StackError"
  by (auto simp: finish_def split: sum.splits dest: stack_frames_error)

lemma fps_of_meta_error: "fps_of_meta meta = Inl e \<Longrightarrow> e \<in> {OverflowError, NanRoundError}"
  by (auto simp: fps_of_meta_def Let_def split: option.splits meta_value.splits)

lemma plan_dir_error:
  "plan_dir scale d = Inl e \<Longrightarrow>
     e \<in> {NoImages, InvalidOriginalSize, OverflowError, ZeroDivisionError}"
  by (auto simp: plan_dir_def Let_def pad_paths_Inr split: if_splits sum.splits prod.splits
      dest: planner_error)

lemma plan_video_error:
  "plan_video scale rd = Inl e \<Longrightarrow>
     e \<in> {IndexError, OverflowError, NanRoundError, CannotReadFrames,
          InvalidOriginalSize, ZeroDivisionError}"
  by (auto simp: plan_video_def Let_def pad_indices_Inr split: if_splits sum.splits prod.splits
      dest: planner_error get_data_error fps_of_meta_error)

lemma prepare_error_cases:
  assumes "prepare_input_tensor src scale = Inl e"
  shows "e \<in> {PILValueError, StackError, IndexError, UnsupportedInput} \<or>
         (\<exists>d. src = ImageDir d \<and> plan_dir scale d = Inl e) \<or>
         (\<exists>rd. src = VideoFile rd \<and> plan_video scale rd = Inl e)"
proof (cases src)
  case (ImageDir d)
  show ?thesis
  proof (cases "plan_dir scale d")
    case (Inl e')
    with assms ImageDir show ?thesis
      by (simp add: prepare_input_tensor_def)
  next
    case (Inr p)
    then obtain sp paths F where "plan_dir scale d = Inr (sp, paths, F)" by (cases p) auto
    with assms ImageDir show ?thesis
      by (auto simp: prepare_input_tensor_def
          dest!: finish_error for_frames_error dest: transform_frame_error)
  qed
next
  case (VideoFile rd)
  show ?thesis
  proof (cases "plan_video scale rd")
    case (Inl e')
    with assms VideoFile show ?thesis
      by (simp add: prepare_input_tensor_def)
  next
    case (Inr p)
    then obtain sp idx F fps where "plan_video scale rd = Inr (sp, idx, F, fps)"
      by (cases p) auto
    with assms VideoFile show ?thesis
      by (auto simp: prepare_input_tensor_def split: sum.splits
          dest!: finish_error for_frames_error dest: transform_frame_error get_data_error)
  qed
next
  case OtherPath
  with assms show ?thesis by (simp add: prepare_input_tensor_def)
qed

lemma prepare_error:
  assumes "prepare_input_tensor src scale = Inl e"
  shows "e \<noteq> NotEnoughFrames"
  using prepare_error_cases [OF assms]
  by (auto dest: plan_dir_error plan_video_error)

lemma prepare_dir_error:
  assumes "prepare_input_tensor (ImageDir d) scale = Inl e" "d \<noteq> []"
  shows "e \<noteq> NoImages"
proof -
  have "e \<noteq> NoImages" if "plan_dir scale d = Inl e"
    using that assms(2)
    by (auto simp: plan_dir_def Let_def pad_paths_Inr split: sum.splits prod.splits
        dest: planner_error)
  then show ?thesis
    using prepare_error_cases [OF assms(1)] by auto
qed

lemma prepare_video_error:
  assumes "prepare_input_tensor (VideoFile rd) scale = Inl e"
    "1 \<le> count_frames rd (meta_of rd)"
  shows "e \<noteq> CannotReadFrames"
proof -
  have "e \<noteq> CannotReadFrames" if "plan_video scale rd = Inl e"
    using that assms(2)
    by (auto simp: plan_video_def Let_def pad_indices_Inr split: sum.splits prod.splits
        dest: planner_error get_data_error fps_of_meta_error)
  then show ?thesis
    using prepare_error_cases [OF assms(1)] by auto
qed

section \<open>More evaluations\<close>

lemma fl_1440: "fl 1440 = 1440"
  by (subst fl_eval [where e = 10]) (simp_all add: fl_simps)

lemma fl_2560: "fl 2560 = 2560"
  by (subst fl_eval [where e = 11]) (simp_all add: fl_simps)

lemma fl_128_25: "fl (128 / 25) = 5764607523034235 / 1125899906842624"
  by (subst fl_eval [where e = 2]) (simp_all add: fl_simps)

lemma fl_24_5: "fl (24 / 5) = 5404319552844595 / 1125899906842624"
  by (subst fl_eval [where e = 2]) (simp_all add: fl_simps)

lemma fl_2997_100: "fl (2997 / 100) = 1054475631502295 / 35184372088832"
  by (subst fl_eval [where e = 4]) (simp_all add: fl_simps)

lemma py_round_fl_2997_100: "py_round (fl (2997 / 100)) = 30"
  by (simp add: fl_2997_100 py_round_def Let_def floor_rat_numeral_div)

lemma mul_round_two:
  "mul_round 1280 (PyFloat 2) = Inr 2560" "mul_round 720 (PyFloat 2) = Inr 1440"
  using mul_round_eval [of 1280 1280 2 2560] mul_round_eval [of 720 720 2 1440]
  by (simp_all add: fl_ints fl_1440 fl_2560 finite_float_small del: mul_round.simps)

lemma plan_1280_720:
  "compute_scaled_and_target_dims 1280 720 (PyInt 4) 2560 1440 128 =
     Inr (2560, 1440, 2560, 1408, PyFloat 2)"
proof -
  have "py_max2 (PyFloat 1) (py_min3 (PyInt 4) (PyFloat 2) (PyFloat 2)) = PyFloat 2"
    by (simp add: py_min3_def py_min2_def py_max2_def)
  then show ?thesis
    by (simp add: compute_scaled_and_target_dims_def true_div_2 mul_round_two
        target_dims_2560_1440 Let_def del: mul_round.simps)
qed

lemma plan_500_300:
  "compute_scaled_and_target_dims 500 300 (PyInt 4) 2560 1440 128 =
     Inr (2000, 1200, 2048, 1280, PyInt 4)"
proof -
  have d: "true_div 2560 500 = Inr (fl (128 / 25))" "true_div 1440 300 = Inr (fl (24 / 5))"
    by (simp_all add: true_div_def Let_def finite_float_small fl_128_25 fl_24_5)
  have "py_max2 (PyFloat 1) (py_min3 (PyInt 4) (PyFloat (fl (128 / 25))) (PyFloat (fl (24 / 5))))
      = PyInt 4"
    by (simp add: py_min3_def py_min2_def py_max2_def fl_128_25 fl_24_5)
  then show ?thesis
    by (simp add: compute_scaled_and_target_dims_def d target_dims_def Let_def)
qed

section \<open>The sizes of a plan\<close>

lemma log2_ge1_bounds:
  "1 \<le> q \<Longrightarrow> 0 \<le> log2_ge1 q \<and> 2 ^ nat (log2_ge1 q) \<le> q \<and> q < 2 ^ Suc (nat (log2_ge1 q))"
proof (induction q rule: log2_ge1.induct)
  case (1 q)
  show ?case
  proof (cases "q < 2")
    case True
    with "1.prems" show ?thesis by (subst (1 2 3) log2_ge1.simps) simp
  next
    case False
    then have "1 \<le> q / 2" by simp
    with "1.IH" [OF False] have ih: "0 \<le> log2_ge1 (q / 2)"
      "2 ^ nat (log2_ge1 (q / 2)) \<le> q / 2" "q / 2 < 2 ^ Suc (nat (log2_ge1 (q / 2)))"
      by simp_all
    have eq: "log2_ge1 q = 1 + log2_ge1 (q / 2)"
      using False by (subst log2_ge1.simps) simp
    have "nat (log2_ge1 q) = Suc (nat (log2_ge1 (q / 2)))"
      using ih(1) by (simp add: eq nat_add_distrib)
    then show ?thesis using ih by (simp add: eq)
  qed
qed

lemma py_round_ge: "of_int k \<le> x \<Longrightarrow> k \<le> py_round x"
proof -
  assume "of_int k \<le> x"
  then have "k \<le> \<lfloor>x\<rfloor>" by (simp add: le_floor_iff)
  then show ?thesis by (simp add: py_round_def Let_def)
qed

lemma pow2_pos: "0 < pow2 e"
  by (simp add: pow2_def)

lemma pow2_shift: "0 \<le> n \<Longrightarrow> 2 ^ k * pow2 (n - int k) = 2 ^ nat n"
proof (cases "int k \<le> n")
  case True
  assume "0 \<le> n"
  have "(2::rat) ^ k * 2 ^ nat (n - int k) = 2 ^ (k + nat (n - int k))"
    by (simp only: power_add)
  also have "k + nat (n - int k) = nat n" using True by simp
  finally show ?thesis using True by (simp add: pow2_def)
next
  case False
  assume n: "0 \<le> n"
  have "k = nat n + nat (int k - n)" using False n by simp
  then have "(2::rat) ^ k = 2 ^ (nat n + nat (int k - n))" by simp
  also have "\<dots> = 2 ^ nat n * 2 ^ nat (int k - n)" by (simp only: power_add)
  finally show ?thesis using False by (simp add: pow2_def)
qed

lemma fl_ge_1:
  assumes "1 \<le> q"
  shows "1 \<le> fl q"
proof -
  define n where "n = log2_ge1 q"
  define u where "u = pow2 (n - 52)"
  define c :: int where "c = 2 ^ 52"
  have b: "0 \<le> n" "2 ^ nat n \<le> q"
    using log2_ge1_bounds [OF assms] by (simp_all add: n_def)
  have u: "0 < u" by (simp add: u_def pow2_pos)
  have s: "of_int c * u = 2 ^ nat n"
    using pow2_shift [OF b(1), of 52] by (simp add: u_def c_def)
  have "floor_log2 \<bar>q\<bar> = n" using assms by (simp add: floor_log2_def n_def)
  then have fl: "fl q = of_int (py_round (q / u)) * u"
    using assms b(1) by (simp add: fl_def Let_def u_def max_def)
  have "of_int c * u \<le> q" using b(2) s by simp
  then have "of_int c \<le> q / u" using u by (simp add: pos_le_divide_eq)
  then have "c \<le> py_round (q / u)" by (rule py_round_ge)
  then have "(of_int c :: rat) \<le> of_int (py_round (q / u))"
    by (simp only: of_int_le_iff)
  then have "of_int c * u \<le> of_int (py_round (q / u)) * u"
    using u by (intro mult_right_mono) simp_all
  then have "2 ^ nat n \<le> fl q" by (simp only: s fl)
  moreover have "(1::rat) \<le> 2 ^ nat n" by (rule one_le_power) simp
  ultimately show ?thesis by (rule order_trans [rotated])
qed

lemma mul_round_ge_1:
  assumes "mul_round w s = Inr k" "1 \<le> w" "1 \<le> num_val s"
  shows "1 \<le> k"
proof (cases s)
  case (PyInt j)
  with assms have "1 \<le> j" "k = w * j" by auto
  with assms(2) show ?thesis
    using mult_mono [of 1 w 1 j] by simp
next
  case (PyFloat r)
  have w: "1 \<le> fl (of_int w)" using assms(2) by (intro fl_ge_1) simp
  have "1 * 1 \<le> fl (of_int w) * r"
    using w assms(3) PyFloat by (intro mult_mono) simp_all
  then have "1 \<le> fl (fl (of_int w) * r)" by (intro fl_ge_1) simp
  then have "1 \<le> py_round (fl (fl (of_int w) * r))" by (intro py_round_ge) simp
  with assms(1) PyFloat show ?thesis
    by (simp add: Let_def split: if_splits)
qed

lemma target_dims_pos:
  fixes m :: int
  assumes "target_dims sW sH max_w max_h m = (tW, tH)" "0 < m" "0 < max_w" "0 < max_h"
  shows "0 < tW" "0 < tH"
  using assms by (auto simp: target_dims_def Let_def split: if_splits)

lemma planner_dims:
  assumes "compute_scaled_and_target_dims w0 h0 scale max_w max_h multiple = Inr sp"
    and "0 < multiple" "0 < max_w" "0 < max_h"
  shows "1 \<le> plan_sW sp" "1 \<le> plan_sH sp" "0 < plan_tW sp" "0 < plan_tH sp"
proof -
  from assms(1) obtain rw rh where
    p: "0 < w0" "0 < h0"
      "plan_scale sp = py_max2 (PyFloat 1) (py_min3 scale (PyFloat rw) (PyFloat rh))"
      "mul_round w0 (plan_scale sp) = Inr (plan_sW sp)"
      "mul_round h0 (plan_scale sp) = Inr (plan_sH sp)"
      "target_dims (plan_sW sp) (plan_sH sp) max_w max_h multiple = (plan_tW sp, plan_tH sp)"
    by (rule planner_Inr)
  have s: "1 \<le> num_val (plan_scale sp)" by (simp only: p(3) scale_eff_bounds)
  show "1 \<le> plan_sW sp" using mul_round_ge_1 [OF p(4) _ s] p(1) by simp
  show "1 \<le> plan_sH sp" using mul_round_ge_1 [OF p(5) _ s] p(2) by simp
  show "0 < plan_tW sp" "0 < plan_tH sp"
    using target_dims_pos [OF p(6) assms(2-4)] by simp_all
qed

section \<open>Claims about the frame transform\<close>

text \<open>
  C7, as amended. \<^verbatim>\<open>upscale_then_center_crop\<close> makes no check of the target size against
  the scaled size: for scaled sizes of at least 1 and target sizes of at least 0 it returns
  an image of the target size, also when the target is wider or higher than the scaled
  image (the crop offset is then 0 and the crop box reaches past the upscaled image).
\<close>

theorem C7_crop_without_geometry_check:
  assumes "1 \<le> sW" "1 \<le> sH" "0 \<le> tW" "0 \<le> tH"
  shows "upscale_then_center_crop img sW sH tW tH = Inr \<lparr>img_w = tW, img_h = tH\<rparr>"
  using assms by (simp add: upscale_then_center_crop_def resize_def crop_def Let_def)

text \<open>
  C7 at a target of 2048 by 1280 for a scaled image of 2000 by 1200.
\<close>

theorem C7_witness:
  "(1::int) \<le> 2000 \<and> (1::int) \<le> 1200 \<and> (0::int) \<le> 2048 \<and> (0::int) \<le> 1280 \<and>
   (2000::int) < 2048 \<and> (1200::int) < 1280 \<and>
   upscale_then_center_crop \<lparr>img_w = 500, img_h = 300\<rparr> 2000 1200 2048 1280 =
     Inr \<lparr>img_w = 2048, img_h = 1280\<rparr>"
  using C7_crop_without_geometry_check [of 2000 1200 2048 1280 "\<lparr>img_w = 500, img_h = 300\<rparr>"]
  by simp

text \<open>
  C7 as stated requires a failure when the target exceeds the scaled size. For a 500 by 300
  source the planner itself returns the scaled size 2000 by 1200 with the target 2048 by
  1280, and the transform does not fail on it.
\<close>

theorem C7_counterexample:
  "compute_scaled_and_target_dims 500 300 (PyInt 4) 2560 1440 128 =
     Inr (2000, 1200, 2048, 1280, PyInt 4) \<and>
   (2000::int) < 2048 \<and>
   \<not> isl (upscale_then_center_crop \<lparr>img_w = 500, img_h = 300\<rparr> 2000 1200 2048 1280)"
  by (simp add: plan_500_300 upscale_then_center_crop_def resize_def crop_def)

text \<open>
  C8. For every input frame, every scaled size of at least 1 and every target size of at
  least 0, the tensor produced for the frame (upscale, center crop, conversion) has the
  shape \<open>(3, tH, tW)\<close>, whatever the size of the input and however the scaled size
  compares with the target size. Every plan that the planner returns for a positive block
  size and positive bounds has such sizes, so the frames transformed with it have the
  shape \<open>(3, tH, tW)\<close> of its target.
\<close>

theorem C8_transform_shape:
  "(1 \<le> sW \<and> 1 \<le> sH \<and> 0 \<le> tW \<and> 0 \<le> tH \<longrightarrow>
      transform_frame img sW sH tW tH = Inr (3, tH, tW)) \<and>
   (compute_scaled_and_target_dims w0 h0 scale max_w max_h multiple = Inr sp \<and>
    0 < multiple \<and> 0 < max_w \<and> 0 < max_h \<longrightarrow>
      transform_frame img' (plan_sW sp) (plan_sH sp) (plan_tW sp) (plan_tH sp) =
        Inr (3, plan_tH sp, plan_tW sp))"
proof (intro conjI impI)
  assume "1 \<le> sW \<and> 1 \<le> sH \<and> 0 \<le> tW \<and> 0 \<le> tH"
  then show "transform_frame img sW sH tW tH = Inr (3, tH, tW)"
    by (simp add: transform_frame_ok)
next
  assume a: "compute_scaled_and_target_dims w0 h0 scale max_w max_h multiple = Inr sp \<and>
    0 < multiple \<and> 0 < max_w \<and> 0 < max_h"
  then have "1 \<le> plan_sW sp" "1 \<le> plan_sH sp" "0 < plan_tW sp" "0 < plan_tH sp"
    using planner_dims [of w0 h0 scale max_w max_h multiple sp] by simp_all
  then show "transform_frame img' (plan_sW sp) (plan_sH sp) (plan_tW sp) (plan_tH sp) =
        Inr (3, plan_tH sp, plan_tW sp)"
    by (intro transform_frame_ok) simp_all
qed

text \<open>
  C8 at a portrait frame of 720 by 1280 with the plan of a 1280 by 720 source, and at the
  plan that the planner returns for a 500 by 300 source, whose target exceeds its scaled
  size.
\<close>

theorem C8_witness:
  "(1::int) \<le> 2560 \<and> (1::int) \<le> 1440 \<and> (0::int) \<le> 2560 \<and> (0::int) \<le> 1408 \<and>
   transform_frame \<lparr>img_w = 720, img_h = 1280\<rparr> 2560 1440 2560 1408 = Inr (3, 1408, 2560) \<and>
   compute_scaled_and_target_dims 500 300 (PyInt 4) 2560 1440 128 =
     Inr (2000, 1200, 2048, 1280, PyInt 4) \<and>
   (0::int) < 128 \<and> (0::int) < 2560 \<and> (0::int) < 1440 \<and>
   transform_frame \<lparr>img_w = 500, img_h = 300\<rparr> 2000 1200 2048 1280 = Inr (3, 1280, 2048)"
  using C8_transform_shape [of 2560 1440 2560 1408 "\<lparr>img_w = 720, img_h = 1280\<rparr>"
      500 300 "PyInt 4" 2560 1440 128 "(2000, 1200, 2048, 1280, PyInt 4)"
      "\<lparr>img_w = 500, img_h = 300\<rparr>"]
  by (simp add: plan_500_300)

section \<open>Claims about the sources\<close>

text \<open>
  C5, as amended. \<^verbatim>\<open>prepare_input_tensor\<close> never raises the error "Not enough frames
  after padding": the padded list has at least four entries, so \<open>F \<ge> 1\<close> for every source
  length, also 0 or less. A source without frames is rejected before the padding, with
  another error. A directory without images is rejected with "No images in ...", and no
  other directory is. A video whose frame count is 0 or less is always rejected: with the
  error of reading its first frame (line 135) when that frame cannot be decoded, which is
  the case of a video without frames; otherwise with the error of rounding its frame rate
  (line 144) when that is infinite or NaN; otherwise with "Cannot read frames from ...".
  No video whose frame count is 1 or more is rejected with "Cannot read frames from ...".
\<close>

theorem C5_padding_never_fails:
  "prepare_input_tensor src scale \<noteq> Inl NotEnoughFrames \<and>
   \<not> isl (pad_indices n) \<and>
   (paths \<noteq> [] \<longrightarrow> \<not> isl (pad_paths paths)) \<and>
   prepare_input_tensor (ImageDir []) scale = Inl NoImages \<and>
   (d \<noteq> [] \<longrightarrow> prepare_input_tensor (ImageDir d) scale \<noteq> Inl NoImages) \<and>
   (count_frames rd (meta_of rd) \<le> 0 \<longrightarrow>
      isl (prepare_input_tensor (VideoFile rd) scale) \<and>
      prepare_input_tensor (VideoFile rd) scale =
        (case get_data rd 0 of
           Inl e \<Rightarrow> Inl e
         | Inr first \<Rightarrow>
             (case fps_of_meta (meta_of rd) of
                Inl e \<Rightarrow> Inl e
              | Inr fps \<Rightarrow> Inl CannotReadFrames))) \<and>
   (1 \<le> count_frames rd' (meta_of rd') \<longrightarrow>
      prepare_input_tensor (VideoFile rd') scale \<noteq> Inl CannotReadFrames)"
proof (intro conjI impI)
  show "prepare_input_tensor src scale \<noteq> Inl NotEnoughFrames"
    using prepare_error [of src scale NotEnoughFrames] by blast
  show "\<not> isl (pad_indices n)" by (simp add: pad_indices_Inr)
  show "\<not> isl (pad_paths paths)" if "paths \<noteq> []"
    using that by (simp add: pad_paths_Inr)
  show "prepare_input_tensor (ImageDir []) scale = Inl NoImages"
    by (simp add: prepare_input_tensor_def plan_dir_def)
  show "prepare_input_tensor (ImageDir d) scale \<noteq> Inl NoImages" if "d \<noteq> []"
    using prepare_dir_error [of d scale NoImages] that by blast
  show eq: "prepare_input_tensor (VideoFile rd) scale =
        (case get_data rd 0 of
           Inl e \<Rightarrow> Inl e
         | Inr first \<Rightarrow>
             (case fps_of_meta (meta_of rd) of
                Inl e \<Rightarrow> Inl e
              | Inr fps \<Rightarrow> Inl CannotReadFrames))"
    if "count_frames rd (meta_of rd) \<le> 0"
    using that
    by (simp add: prepare_input_tensor_def plan_video_def Let_def split: sum.splits)
  show "isl (prepare_input_tensor (VideoFile rd) scale)"
    if "count_frames rd (meta_of rd) \<le> 0"
    by (simp add: eq [OF that] split: sum.splits)
  show "prepare_input_tensor (VideoFile rd') scale \<noteq> Inl CannotReadFrames"
    if "1 \<le> count_frames rd' (meta_of rd')"
    using prepare_video_error [of rd' scale CannotReadFrames] that by blast
qed

text \<open>
  C5 at a directory of one image, the directory of five images, the video without frames
  (its frame count is 0 and it is rejected at the reading of its first frame), and the
  video of five frames.
\<close>

theorem C5_witness:
  "[''f1.png''] \<noteq> [] \<and> \<not> isl (pad_paths [''f1.png'']) \<and>
   example_dir \<noteq> [] \<and>
   prepare_input_tensor (ImageDir example_dir) (PyInt 4) \<noteq> Inl NoImages \<and>
   count_frames empty_video (meta_of empty_video) \<le> 0 \<and>
   isl (prepare_input_tensor (VideoFile empty_video) (PyInt 4)) \<and>
   prepare_input_tensor (VideoFile empty_video) (PyInt 4) = Inl IndexError \<and>
   1 \<le> count_frames example_video (meta_of example_video) \<and>
   prepare_input_tensor (VideoFile example_video) (PyInt 4) \<noteq> Inl CannotReadFrames"
  using C5_padding_never_fails [of "ImageDir []" "PyInt 4" 1 "[''f1.png'']" example_dir
      empty_video example_video]
  by (simp add: empty_video_def get_data_def meta_of_def count_frames_def manual_scan.simps)
     (simp add: example_dir_def example_video_def)

text \<open>
  C5 as stated has the padding fail at the source length 0. The padding of the video branch
  returns a plan of one entry there, and the sources without frames are rejected with other
  errors: "No images" for the directory, the error of reading the first frame for the
  video.
\<close>

theorem C5_counterexample:
  "pad_indices 0 = Inr ([- 1], 1) \<and>
   prepare_input_tensor (ImageDir []) (PyInt 4) = Inl NoImages \<and>
   prepare_input_tensor (VideoFile empty_video) (PyInt 4) = Inl IndexError"
  by (simp add: pad_indices_Inr largest_8n1_leq_def prepare_input_tensor_def plan_dir_def
      plan_video_def get_data_def empty_video_def)

text \<open>
  The error "Cannot read frames" itself is reached by a reader that decodes its first frame
  and has a readable frame rate although its \<^verbatim>\<open>count_frames\<close> answers 0.
\<close>

lemma cannot_read_frames_reached:
  "count_frames miscounting_reader (meta_of miscounting_reader) = 0 \<and>
   prepare_input_tensor (VideoFile miscounting_reader) (PyInt 4) = Inl CannotReadFrames"
  by (simp add: prepare_input_tensor_def plan_video_def get_data_def fps_of_meta_def
      meta_of_def count_frames_def miscounting_reader_def)

lemma py_round_nearest: "\<bar>of_int (py_round x) - x\<bar> \<le> 1 / 2"
proof -
  have "of_int \<lfloor>x\<rfloor> \<le> x" "x < of_int \<lfloor>x\<rfloor> + 1"
    using floor_correct [of x] by simp_all
  then show ?thesis
    by (auto simp: py_round_def Let_def abs_le_iff)
qed

lemma plan_video_fps:
  "plan_video scale rd = Inr (sp, idx, F, fps) \<Longrightarrow> fps_of_meta (meta_of rd) = Inr fps"
  by (auto simp: plan_video_def Let_def split: sum.splits if_splits prod.splits)

lemma finish_fps: "finish sp frames F fps = Inr r \<Longrightarrow> p_fps r = fps"
  by (auto simp: finish_def split: sum.splits)

lemma prepare_video_fps:
  assumes "prepare_input_tensor (VideoFile rd) scale = Inr r"
  shows "fps_of_meta (meta_of rd) = Inr (p_fps r)"
proof (cases "plan_video scale rd")
  case (Inl e)
  with assms show ?thesis by (simp add: prepare_input_tensor_def)
next
  case (Inr p)
  then obtain sp idx F fps where p: "plan_video scale rd = Inr (sp, idx, F, fps)"
    by (cases p) auto
  with assms have "p_fps r = fps"
    by (auto simp: prepare_input_tensor_def dest: finish_fps)
  with plan_video_fps [OF p] show ?thesis by simp
qed

lemma example_video_facts:
  "get_data example_video 0 = Inr frame_720p"
  "meta_of example_video ''fps'' = Some (MFloat (fl (2997 / 100)))"
  "fps_of_meta (meta_of example_video) = Inr 30"
  "count_frames example_video (meta_of example_video) = 5"
  by (simp_all add: example_video_def get_data_def meta_of_def fps_of_meta_def
      count_frames_def py_round_fl_2997_100)

lemma pad_indices_5: "pad_indices 5 = Inr ([0, 1, 2, 3, 4, 4, 4, 4, 4], 9)"
  by (simp add: pad_indices_Inr largest_8n1_leq_def upto_rec1 numeral_eq_Suc)

lemma plan_video_example:
  "plan_video (PyInt 4) example_video =
     Inr ((2560, 1440, 2560, 1408, PyFloat 2), [0, 1, 2, 3, 4, 4, 4, 4, 4], 9, 30)"
  by (simp add: plan_video_def example_video_facts frame_720p_def plan_1280_720 pad_indices_5)

lemma plan_dir_example:
  "plan_dir (PyInt 4) example_dir =
     Inr ((2560, 1440, 2560, 1408, PyFloat 2),
          [(''f1.png'', frame_720p), (''f2.png'', frame_720p), (''f3.png'', frame_720p),
           (''f4.png'', frame_720p), (''f5.png'', frame_720p), (''f5.png'', frame_720p),
           (''f5.png'', frame_720p), (''f5.png'', frame_720p), (''f5.png'', frame_720p)], 9)"
  by (simp add: plan_dir_def example_dir_def frame_720p_def plan_1280_720 pad_paths_Inr
      largest_8n1_leq_def numeral_eq_Suc Let_def)

lemma get_data_example:
  "i \<in> set [0, 1, 2, 3, 4, 4, 4, 4, 4] \<Longrightarrow> get_data example_video i = Inr frame_720p"
  by (auto simp: get_data_def example_video_def)

lemma prepare_video_ok:
  assumes p: "plan_video scale rd = Inr ((sW, sH, tW, tH, s), idx, F, fps)"
    and rd: "\<And>i. i \<in> set idx \<Longrightarrow> \<not> isl (get_data rd i)"
    and dims: "1 \<le> sW" "1 \<le> sH" "0 \<le> tW" "0 \<le> tH"
    and len: "idx \<noteq> []" "int (length idx) = F"
  shows "prepare_input_tensor (VideoFile rd) scale =
     Inr \<lparr>p_vid = (1, 3, F, tH, tW), p_tH = tH, p_tW = tW, p_F = F, p_fps = fps\<rparr>"
proof -
  let ?sp = "(sW, sH, tW, tH, s)"
  let ?f = "\<lambda>i. case get_data rd i of Inl e \<Rightarrow> Inl e
            | Inr img \<Rightarrow> transform_frame img (plan_sW ?sp) (plan_sH ?sp) (plan_tW ?sp) (plan_tH ?sp)"
  have "for_frames ?f idx = Inr (replicate (length idx) (3, tH, tW))"
  proof (rule for_frames_const)
    fix i assume "i \<in> set idx"
    then obtain img where "get_data rd i = Inr img"
      using rd [of i] by (cases "get_data rd i") simp_all
    then show "?f i = Inr (3, tH, tW)"
      using dims by (simp add: transform_frame_ok)
  qed
  moreover have "stack_frames (replicate (length idx) (3, tH, tW))
      = Inr (1, 3, int (length idx), tH, tW)"
    using len(1) by (intro stack_frames_replicate) simp
  ultimately show ?thesis
    using len(2) by (simp add: prepare_input_tensor_def p finish_def)
qed

lemma prepare_video_example:
  "prepare_input_tensor (VideoFile example_video) (PyInt 4) =
     Inr \<lparr>p_vid = (1, 3, 9, 1408, 2560), p_tH = 1408, p_tW = 2560, p_F = 9, p_fps = 30\<rparr>"
  by (rule prepare_video_ok [OF plan_video_example]) (simp_all add: get_data_example)



text \<open>
  C10. Whenever \<^verbatim>\<open>prepare_input_tensor\<close> returns for a video, the frame rate it returns is
  30 when the metadata has no \<^verbatim>\<open>fps\<close> entry or one that is neither an int nor a float,
  the entry itself when it is an int, and \<^verbatim>\<open>round\<close> of the entry when it is a float: an
  integer at distance at most 1/2, which differs from the entry when the entry is not an
  integer. (For an infinite or NaN entry \<^verbatim>\<open>round\<close> raises and nothing is returned.)
\<close>

theorem C10_video_fps:
  assumes "prepare_input_tensor (VideoFile rd) scale = Inr r"
  shows "(meta_of rd ''fps'' = None \<longrightarrow> p_fps r = 30) \<and>
         (\<forall>i. meta_of rd ''fps'' = Some (MInt i) \<longrightarrow> p_fps r = i) \<and>
         (\<forall>x. meta_of rd ''fps'' = Some (MFloat x) \<longrightarrow>
              p_fps r = py_round x \<and> \<bar>of_int (p_fps r) - x\<bar> \<le> 1 / 2 \<and>
              (x \<notin> \<int> \<longrightarrow> of_int (p_fps r) \<noteq> x)) \<and>
         (meta_of rd ''fps'' = Some MOther \<longrightarrow> p_fps r = 30) \<and>
         meta_of rd ''fps'' \<noteq> Some MInf \<and> meta_of rd ''fps'' \<noteq> Some MNaN"
proof -
  note fps = prepare_video_fps [OF assms]
  have "p_fps r = py_round x \<and> \<bar>of_int (p_fps r) - x\<bar> \<le> 1 / 2 \<and>
        (x \<notin> \<int> \<longrightarrow> of_int (p_fps r) \<noteq> x)"
    if "meta_of rd ''fps'' = Some (MFloat x)" for x
  proof -
    have r: "p_fps r = py_round x"
      using fps that by (simp add: fps_of_meta_def)
    have "x \<noteq> of_int (p_fps r)" if "x \<notin> \<int>"
      using that by (metis Ints_of_int)
    then show ?thesis
      using r py_round_nearest [of x] by auto
  qed
  then show ?thesis
    using fps by (auto simp: fps_of_meta_def Let_def)
qed

text \<open>
  C10 at the video of five frames: the metadata says 29.97 and the returned rate is 30.
\<close>

theorem C10_witness:
  "prepare_input_tensor (VideoFile example_video) (PyInt 4) =
     Inr \<lparr>p_vid = (1, 3, 9, 1408, 2560), p_tH = 1408, p_tW = 2560, p_F = 9, p_fps = 30\<rparr> \<and>
   meta_of example_video ''fps'' = Some (MFloat (fl (2997 / 100))) \<and>
   py_round (fl (2997 / 100)) = 30 \<and> fl (2997 / 100) \<noteq> 30"
  using C10_video_fps [OF prepare_video_example]
  by (simp add: prepare_video_example example_video_facts fl_2997_100)

end
